theory Spec2Isabelle
  imports Complex_Main "HOL-Library.Log_Nat"
begin

section \<open>Wildfire detection streaming server: the per-frame smoothing pipeline\<close>

text \<open>
  A shallow embedding of \<^verbatim>\<open>src/stream_server.py\<close>: the confidence filter, the bounded
  detection history, the confidence-weighted average, the overlay renderer's box
  geometry and the frame generator.

  Numbers. The tensors and arrays of the source hold binary32 floating-point numbers; a
  finite one is a \<^typ>\<open>real\<close> here, and \<open>is_float32\<close> says that a real is such a number.
  \<^item> The threshold \<^verbatim>\<open>args.conf_threshold\<close> is a Python float. Compared with a float32
    tensor or scalar (lines 65, 138 and 163) it is first converted to float32, by
    rounding to nearest, ties to even; \<open>to_float32\<close> is that conversion, with subnormal
    numbers and overflow to infinity. (The rule for line 163 is numpy's since version 2;
    older versions compare a float32 scalar with a Python float in double precision.)
  \<^item> The averaging of lines 156-161 is computed over the type \<open>npfloat\<close>, which adds the
    two infinities and nan with the IEEE rules numpy follows (a division by zero gives
    an infinity or nan and a warning, never an exception; every comparison with nan is
    false). On finite numbers its sums, products and quotients are the exact ones: the
    rounding of each float32 operation, and with it the order in which numpy sums, is
    not modelled, so the values of the average are those of exact arithmetic.
  Signed zeros are not distinguished.
\<close>

subsection \<open>Data model\<close>

text \<open>A row of a detection tensor: \<^verbatim>\<open>x_min, y_min, x_max, y_max, conf, class_id\<close>.\<close>

record detection =
  x_min :: real
  y_min :: real
  x_max :: real
  y_max :: real
  conf :: real
  class_id :: real

text \<open>The global \<^verbatim>\<open>detection_history\<close>: a list of per-frame detection arrays, oldest first.\<close>

type_synonym history = "detection list list"

text \<open>
  The fields of \<^verbatim>\<open>args\<close> that the frame loop itself reads; \<open>conf_threshold\<close> is the
  value of the Python float.
\<close>

record args =
  conf_threshold :: real
  smooth_frames :: int

datatype error = ZeroDivisionError | NonFiniteTensor

subsection \<open>numpy floating-point values\<close>

datatype npfloat = Fin real | PInf | NInf | NaN

text \<open>The infinity with the sign of \<open>s\<close>; nan when \<open>s\<close> is zero (\<open>0 * inf\<close>, \<open>0 / 0\<close>).\<close>

definition signed_inf :: "real \<Rightarrow> npfloat" where
  "signed_inf s = (if 0 < s then PInf else if s < 0 then NInf else NaN)"

fun np_add :: "npfloat \<Rightarrow> npfloat \<Rightarrow> npfloat" where
  "np_add (Fin a) (Fin b) = Fin (a + b)"
| "np_add NaN _ = NaN"
| "np_add _ NaN = NaN"
| "np_add PInf NInf = NaN"
| "np_add NInf PInf = NaN"
| "np_add PInf _ = PInf"
| "np_add _ PInf = PInf"
| "np_add NInf _ = NInf"
| "np_add _ NInf = NInf"

fun np_mul :: "npfloat \<Rightarrow> npfloat \<Rightarrow> npfloat" where
  "np_mul (Fin a) (Fin b) = Fin (a * b)"
| "np_mul NaN _ = NaN"
| "np_mul _ NaN = NaN"
| "np_mul PInf (Fin b) = signed_inf b"
| "np_mul (Fin a) PInf = signed_inf a"
| "np_mul NInf (Fin b) = signed_inf (- b)"
| "np_mul (Fin a) NInf = signed_inf (- a)"
| "np_mul PInf PInf = PInf"
| "np_mul NInf NInf = PInf"
| "np_mul PInf NInf = NInf"
| "np_mul NInf PInf = NInf"

fun np_div :: "npfloat \<Rightarrow> npfloat \<Rightarrow> npfloat" where
  "np_div (Fin a) (Fin b) = (if b = 0 then signed_inf a else Fin (a / b))"
| "np_div NaN _ = NaN"
| "np_div _ NaN = NaN"
| "np_div (Fin a) PInf = Fin 0"
| "np_div (Fin a) NInf = Fin 0"
| "np_div PInf (Fin b) = (if b < 0 then NInf else PInf)"
| "np_div NInf (Fin b) = (if b < 0 then PInf else NInf)"
| "np_div PInf PInf = NaN"
| "np_div PInf NInf = NaN"
| "np_div NInf PInf = NaN"
| "np_div NInf NInf = NaN"

text \<open>The comparison \<^verbatim>\<open>a >= b\<close>.\<close>

fun np_ge :: "npfloat \<Rightarrow> npfloat \<Rightarrow> bool" where
  "np_ge (Fin a) (Fin b) = (b \<le> a)"
| "np_ge NaN _ = False"
| "np_ge _ NaN = False"
| "np_ge PInf _ = True"
| "np_ge _ NInf = True"
| "np_ge (Fin a) PInf = False"
| "np_ge NInf (Fin b) = False"
| "np_ge NInf PInf = False"

text \<open>The comparison \<^verbatim>\<open>a < b\<close>.\<close>

fun np_lt :: "npfloat \<Rightarrow> npfloat \<Rightarrow> bool" where
  "np_lt (Fin a) (Fin b) = (a < b)"
| "np_lt NaN _ = False"
| "np_lt _ NaN = False"
| "np_lt PInf _ = False"
| "np_lt _ NInf = False"
| "np_lt (Fin a) PInf = True"
| "np_lt NInf (Fin b) = True"
| "np_lt NInf PInf = True"

subsection \<open>Conversion of a Python float to float32\<close>

text \<open>Rounding to the nearest integer, a tie going to the even one.\<close>

definition round_half_even :: "real \<Rightarrow> int" where
  "round_half_even y =
     (let f = \<lfloor>y\<rfloor>; r = y - of_int f
      in if r < 1/2 then f else if 1/2 < r then f + 1 else if even f then f else f + 1)"

text \<open>For \<open>x > 0\<close>, the exponent \<open>e\<close> with \<open>2\<^sup>e \<le> x < 2\<^sup>e\<^sup>+\<^sup>1\<close>.\<close>

definition binade :: "real \<Rightarrow> int" where
  "binade x = (if 1 \<le> x then bitlen \<lfloor>x\<rfloor> - 1 else - bitlen (\<lceil>1 / x\<rceil> - 1))"

text \<open>
  The exponent of the spacing of the float32 numbers around \<open>x > 0\<close>: 24 significant
  bits, and the spacing \<open>2\<^sup>-\<^sup>1\<^sup>4\<^sup>9\<close> of the subnormal numbers at the bottom.
\<close>

definition ulp_exponent :: "real \<Rightarrow> int" where
  "ulp_exponent x = max (binade x - 23) (- 149)"

definition nearest32 :: "real \<Rightarrow> real" where
  "nearest32 x = of_int (round_half_even (x / 2 powi ulp_exponent x)) * 2 powi ulp_exponent x"

text \<open>The conversion: what rounds to \<open>2\<^sup>1\<^sup>2\<^sup>8\<close> or beyond becomes an infinity.\<close>

definition to_float32 :: "real \<Rightarrow> npfloat" where
  "to_float32 x =
     (if x = 0 then Fin 0
      else if 0 < x then (let r = nearest32 x in if 2 ^ 128 \<le> r then PInf else Fin r)
      else (let r = nearest32 (- x) in if 2 ^ 128 \<le> r then NInf else Fin (- r)))"

text \<open>A real is a float32 number when the conversion leaves it unchanged.\<close>

definition is_float32 :: "real \<Rightarrow> bool" where
  "is_float32 x = (to_float32 x = Fin x)"

text \<open>\<^verbatim>\<open>array.sum()\<close>.\<close>

primrec np_sum :: "npfloat list \<Rightarrow> npfloat" where
  "np_sum [] = Fin 0"
| "np_sum (x # xs) = np_add x (np_sum xs)"

text \<open>
  \<^verbatim>\<open>np.average(a, axis=0, weights=wgt)\<close> on the columns of \<open>a\<close>: numpy sums the weights,
  raises ZeroDivisionError when that sum compares equal to zero, and otherwise divides
  each weighted column sum by it.
\<close>

definition np_average :: "npfloat list list \<Rightarrow> npfloat list \<Rightarrow> error + npfloat list" where
  "np_average cols wgt =
     (let scl = np_sum wgt
      in if scl = Fin 0 then Inl ZeroDivisionError
         else Inr (map (\<lambda>a. np_div (np_sum (map2 np_mul a wgt)) scl) cols))"

subsection \<open>The confidence filter and the representatives\<close>

text \<open>
  Lines 137-139: \<^verbatim>\<open>mask = confidences >= args.conf_threshold; dets_tensor[mask]\<close>. The
  comparison is made in float32, the dtype of the tensor.
\<close>

definition confidence_filter :: "real \<Rightarrow> detection list \<Rightarrow> detection list" where
  "confidence_filter thr dets_tensor =
     filter (\<lambda>d. np_ge (Fin (conf d)) (to_float32 thr)) dets_tensor"

text \<open>
  \<^verbatim>\<open>np.argmax\<close>: the index of the first occurrence of the maximum. The source calls it
  on non-empty arrays only (line 151 guards it); the value on \<open>[]\<close> is never used.
\<close>

fun argmax :: "real list \<Rightarrow> nat" where
  "argmax [] = 0"
| "argmax [x] = 0"
| "argmax (x # xs) = (let i = argmax xs in if x < xs ! i then Suc i else 0)"

text \<open>Lines 152-153: \<^verbatim>\<open>hist_frame[np.argmax(hist_frame[:, 4])]\<close>.\<close>

definition best_of :: "detection list \<Rightarrow> detection" where
  "best_of hist_frame = hist_frame ! argmax (map conf hist_frame)"

text \<open>Lines 149-153: the best row of every non-empty history entry.\<close>

definition representatives :: "history \<Rightarrow> detection list" where
  "representatives hist = map best_of (filter (\<lambda>hist_frame. 0 < length hist_frame) hist)"

subsection \<open>The confidence-weighted average\<close>

text \<open>
  Lines 156-161. The weights are the representatives' confidences divided by their sum
  (lines 157-158, with no test of that sum); \<^verbatim>\<open>np.average\<close> then normalises by the sum
  of these weights once more. On finite numbers the values are those of exact arithmetic;
  numpy's float32 results differ from them by the rounding of each operation.
\<close>

definition normalized_weights :: "detection list \<Rightarrow> npfloat list" where
  "normalized_weights smoothed_dets =
     (let weights = map (\<lambda>d. Fin (conf d)) smoothed_dets
      in map (\<lambda>w. np_div w (np_sum weights)) weights)"

definition weighted_average :: "detection list \<Rightarrow> error + (npfloat list \<times> npfloat)" where
  "weighted_average smoothed_dets =
     (let column = (\<lambda>f. map (\<lambda>d. Fin (f d)) smoothed_dets);
          weights = normalized_weights smoothed_dets
      in case np_average [column x_min, column y_min, column x_max, column y_max] weights of
           Inl e \<Rightarrow> Inl e
         | Inr avg_box \<Rightarrow>
             (case np_average [column conf] weights of
                Inl e \<Rightarrow> Inl e
              | Inr avg_conf \<Rightarrow> Inr (avg_box, hd avg_conf)))"

fun fin_of :: "npfloat \<Rightarrow> real option" where
  "fin_of (Fin a) = Some a"
| "fin_of _ = None"

text \<open>
  Line 164: the row \<^verbatim>\<open>[avg_box[0], avg_box[1], avg_box[2], avg_box[3], avg_conf, 0]\<close>.
  A \<^typ>\<open>detection\<close> holds finite numbers; \<open>None\<close> reports an entry that is not finite.
\<close>

definition smoothed_row :: "npfloat list \<Rightarrow> npfloat \<Rightarrow> detection option" where
  "smoothed_row avg_box avg_conf =
     (case map fin_of avg_box of
        [Some a, Some b, Some c, Some d] \<Rightarrow>
          (case fin_of avg_conf of
             Some e \<Rightarrow> Some \<lparr>x_min = a, y_min = b, x_max = c, y_max = d, conf = e, class_id = 0\<rparr>
           | None \<Rightarrow> None)
      | _ \<Rightarrow> None)"

text \<open>
  Lines 155-174: the detection handed to the renderer by the averaging branch, if any.
  The routine that computes the average is a parameter, so that what these lines do with
  the average can be stated whatever its arithmetic; \<open>smooth_emit\<close> is the instance
  with \<open>weighted_average\<close>. There, an average that passes the threshold test without
  being finite cannot occur (lemma \<open>smooth_emit_cases\<close> below); the model marks that
  case with \<open>NonFiniteTensor\<close>.
\<close>

type_synonym averaging = "detection list \<Rightarrow> error + (npfloat list \<times> npfloat)"

definition smooth_emit_with :: "averaging \<Rightarrow> real \<Rightarrow> detection list \<Rightarrow> error + detection option" where
  "smooth_emit_with average thr smoothed_dets =
     (if smoothed_dets = [] then Inr None
      else case average smoothed_dets of
             Inl e \<Rightarrow> Inl e
           | Inr (avg_box, avg_conf) \<Rightarrow>
               if np_ge avg_conf (to_float32 thr)
               then (case smoothed_row avg_box avg_conf of
                       Some row \<Rightarrow> Inr (Some row)
                     | None \<Rightarrow> Inl NonFiniteTensor)
               else Inr None)"

definition smooth_emit :: "real \<Rightarrow> detection list \<Rightarrow> error + detection option" where
  "smooth_emit = smooth_emit_with weighted_average"

subsection \<open>One frame of the loop\<close>

text \<open>
  What one iteration hands to \<^verbatim>\<open>draw_detections\<close>: nothing, the filtered detections
  as they are, or the single averaged row.
\<close>

datatype frame_output = NoDetection | RawSet "detection list" | Stabilized detection

definition has_fire :: "frame_output \<Rightarrow> bool" where
  "has_fire out = (out \<noteq> NoDetection)"

text \<open>\<^verbatim>\<open>if len(detection_history) > 0: detection_history.pop(0)\<close>.\<close>

definition evict_oldest :: "history \<Rightarrow> history" where
  "evict_oldest hist = (if 0 < length hist then tl hist else hist)"

text \<open>
  Lines 143-146: append the filtered detections, then drop the oldest entry when the
  history has grown beyond \<^verbatim>\<open>args.smooth_frames\<close>.
\<close>

definition bounded_append :: "int \<Rightarrow> history \<Rightarrow> detection list \<Rightarrow> history" where
  "bounded_append w hist filtered_dets =
     (let appended = hist @ [filtered_dets]
      in if w < int (length appended) then tl appended else appended)"

text \<open>
  Lines 134-194. The argument \<open>detections\<close> is what \<^verbatim>\<open>model.decode_predictions\<close>
  returned for the frame (one detection tensor per image of the batch). The result is
  the history as the iteration leaves it, and either the output or the exception raised
  after the history was updated. The averaging routine is a parameter here too;
  \<open>frame_step\<close> is the instance with \<open>weighted_average\<close>.
\<close>

definition frame_step_with ::
  "averaging \<Rightarrow> args \<Rightarrow> history \<Rightarrow> detection list list \<Rightarrow> history \<times> (error + frame_output)" where
  "frame_step_with average a hist detections =
     (case detections of
        [] \<Rightarrow> (evict_oldest hist, Inr NoDetection)
      | dets_tensor # _ \<Rightarrow>
          if 0 < length dets_tensor then
            (let filtered_dets = confidence_filter (conf_threshold a) dets_tensor
             in if 0 < length filtered_dets then
                  if 1 < smooth_frames a then
                    (let hist' = bounded_append (smooth_frames a) hist filtered_dets
                     in if 2 \<le> length hist' then
                          (hist',
                           case smooth_emit_with average (conf_threshold a)
                                  (representatives hist') of
                             Inl e \<Rightarrow> Inl e
                           | Inr None \<Rightarrow> Inr NoDetection
                           | Inr (Some row) \<Rightarrow> Inr (Stabilized row))
                        else (hist', Inr (RawSet filtered_dets)))
                  else (hist, Inr (RawSet filtered_dets))
                else (evict_oldest hist, Inr NoDetection))
          else (evict_oldest hist, Inr NoDetection))"

definition frame_step :: "args \<Rightarrow> history \<Rightarrow> detection list list \<Rightarrow> history \<times> (error + frame_output)" where
  "frame_step = frame_step_with weighted_average"

text \<open>The filtered detection set of a frame (empty when the detector returned nothing).\<close>

definition filtered_set :: "args \<Rightarrow> detection list list \<Rightarrow> detection list" where
  "filtered_set a detections =
     (case detections of [] \<Rightarrow> [] | dets_tensor # _ \<Rightarrow> confidence_filter (conf_threshold a) dets_tensor)"

text \<open>The history after a sequence of frames.\<close>

definition history_after :: "args \<Rightarrow> history \<Rightarrow> detection list list list \<Rightarrow> history" where
  "history_after a hist frames = foldl (\<lambda>h detections. fst (frame_step a h detections)) hist frames"

subsection \<open>The overlay renderer's boxes\<close>

text \<open>Python's \<^verbatim>\<open>int()\<close> on a finite float: truncation towards zero.\<close>

definition py_int :: "real \<Rightarrow> int" where
  "py_int x = (if 0 \<le> x then \<lfloor>x\<rfloor> else \<lceil>x\<rceil>)"

text \<open>The corners of the outline passed to \<^verbatim>\<open>cv2.rectangle\<close> and the confidence of the label.\<close>

record drawn_box =
  x1 :: int
  y1 :: int
  x2 :: int
  y2 :: int
  label_conf :: real

text \<open>
  Lines 60-80 of \<^verbatim>\<open>draw_detections\<close>; the test of line 65 is made in float32. The
  label background and text (lines 82-105) are placed relative to \<open>(x1, y1)\<close> with the
  font metrics of OpenCV and are not modelled.
\<close>

definition clamp_px :: "int \<Rightarrow> int \<Rightarrow> int" where
  "clamp_px extent v = max 0 (min (extent - 1) v)"

fun draw_detections :: "int \<Rightarrow> int \<Rightarrow> detection list \<Rightarrow> real \<Rightarrow> drawn_box list" where
  "draw_detections frame_h frame_w [] thr = []"
| "draw_detections frame_h frame_w (d # ds) thr =
     (if np_lt (Fin (conf d)) (to_float32 thr) then draw_detections frame_h frame_w ds thr
      else \<lparr>x1 = clamp_px frame_w (py_int (x_min d * of_int frame_w)),
            y1 = clamp_px frame_h (py_int (y_min d * of_int frame_h)),
            x2 = clamp_px frame_w (py_int (x_max d * of_int frame_w)),
            y2 = clamp_px frame_h (py_int (y_max d * of_int frame_h)),
            label_conf = conf d\<rparr>
           # draw_detections frame_h frame_w ds thr)"

definition drawn_detections :: "frame_output \<Rightarrow> detection list" where
  "drawn_detections out = (case out of NoDetection \<Rightarrow> [] | RawSet ds \<Rightarrow> ds | Stabilized d \<Rightarrow> [d])"

subsection \<open>The frame generator\<close>

text \<open>
  One frame of the source as the loop sees it: what the detector returns for it, and
  what \<^verbatim>\<open>cv2.imencode\<close> returns for its annotated copy (\<open>None\<close> when the encoder reports
  failure). Detector and codec are external. The frame counter and the status line only
  feed the picture that is encoded and are left out.
\<close>

record frame_in =
  decoded :: "detection list list"
  jpeg :: "string option"

text \<open>The capture device: whether it is open, and the frames it will still deliver.\<close>

record capture =
  is_opened :: bool
  pending :: "frame_in list"

definition multipart_chunk :: "string \<Rightarrow> string" where
  "multipart_chunk frame_bytes =
     ''--frame'' @ [CHR 0x0D, CHR 0x0A] @ ''Content-Type: image/jpeg''
       @ [CHR 0x0D, CHR 0x0A, CHR 0x0D, CHR 0x0A] @ frame_bytes @ [CHR 0x0D, CHR 0x0A]"

text \<open>
  The body of \<^verbatim>\<open>while True\<close> over the frames the capture still delivers:
  \<^verbatim>\<open>cap.read()\<close> returns \<^verbatim>\<open>ret = False\<close> once they are used up. The result is the final
  history, the chunks yielded, and the exception that ended the generator, if any.
\<close>

fun generate_loop :: "args \<Rightarrow> history \<Rightarrow> frame_in list \<Rightarrow> history \<times> string list \<times> error option" where
  "generate_loop a hist [] = (hist, [], None)"
| "generate_loop a hist (f # fs) =
     (case frame_step a hist (decoded f) of
        (hist', Inl e) \<Rightarrow> (hist', [], Some e)
      | (hist', Inr out) \<Rightarrow>
          (case jpeg f of
             None \<Rightarrow> generate_loop a hist' fs
           | Some frame_bytes \<Rightarrow>
               (case generate_loop a hist' fs of
                  (h, chunks, err) \<Rightarrow> (h, multipart_chunk frame_bytes # chunks, err))))"

definition generate_frames :: "args \<Rightarrow> capture option \<Rightarrow> history \<Rightarrow> history \<times> string list \<times> error option" where
  "generate_frames a cap hist =
     (case cap of
        None \<Rightarrow> (hist, [], None)
      | Some c \<Rightarrow> if \<not> is_opened c then (hist, [], None) else generate_loop a hist (pending c))"

subsection \<open>The formula and the invariant the properties are stated with\<close>

text \<open>
  The weighted average as the specification writes it, in exact arithmetic: the sum of
  the confidences \<open>c\<^sub>j\<close>, and the sum of \<open>(c\<^sub>i / \<Sum>c\<^sub>j) * f\<^sub>i\<close> for a field \<open>f\<close>.
\<close>

definition weight_sum :: "detection list \<Rightarrow> real" where
  "weight_sum reps = (\<Sum>r\<leftarrow>reps. conf r)"

definition weighted_mean :: "(detection \<Rightarrow> real) \<Rightarrow> detection list \<Rightarrow> real" where
  "weighted_mean f reps = (\<Sum>r\<leftarrow>reps. conf r / weight_sum reps * f r)"

text \<open>
  Every history entry is non-empty and holds only detections that pass the test of the
  confidence filter.
\<close>

definition hist_inv :: "real \<Rightarrow> history \<Rightarrow> bool" where
  "hist_inv thr hist =
     list_all (\<lambda>entry. entry \<noteq> [] \<and>
                 list_all (\<lambda>d. np_ge (Fin (conf d)) (to_float32 thr)) entry) hist"

section \<open>Properties\<close>

subsection \<open>The conversion to float32 is monotone\<close>

lemma round_half_even_of_int [simp]: "round_half_even (of_int n) = n"
  by (simp add: round_half_even_def)

lemma round_half_even_range:
  "\<lfloor>y\<rfloor> \<le> round_half_even y \<and> round_half_even y \<le> \<lfloor>y\<rfloor> + 1"
  by (simp add: round_half_even_def Let_def)

lemma round_half_even_mono:
  assumes "a \<le> b"
  shows "round_half_even a \<le> round_half_even b"
proof (cases "\<lfloor>a\<rfloor> = \<lfloor>b\<rfloor>")
  case True
  with assms show ?thesis
    by (auto simp: round_half_even_def Let_def)
next
  case False
  with assms have "\<lfloor>a\<rfloor> + 1 \<le> \<lfloor>b\<rfloor>"
    using floor_mono [OF assms] by linarith
  with round_half_even_range [of a] round_half_even_range [of b] show ?thesis
    by linarith
qed

lemma round_half_even_le: "y \<le> of_int m \<Longrightarrow> round_half_even y \<le> m"
  using round_half_even_mono [of y "of_int m"] by simp

lemma round_half_even_ge: "of_int m \<le> y \<Longrightarrow> m \<le> round_half_even y"
  using round_half_even_mono [of "of_int m" y] by simp

lemma binade_bounds:
  assumes "0 < x"
  shows "2 powi binade x \<le> x \<and> x < 2 powi (binade x + 1)"
proof (cases "1 \<le> x")
  case True
  let ?n = "\<lfloor>x\<rfloor>"
  from True have n: "0 < ?n" by simp
  from bitlen_bounds [OF n] have lo: "2 ^ nat (bitlen ?n - 1) \<le> ?n" and hi: "?n < 2 ^ nat (bitlen ?n)"
    by simp_all
  from n have b1: "1 \<le> bitlen ?n" by (simp add: bitlen_alt_def)
  have "(2::real) powi (bitlen ?n - 1) = 2 ^ nat (bitlen ?n - 1)"
    using b1 by (simp add: power_int_nonneg_exp)
  also have "\<dots> = of_int (2 ^ nat (bitlen ?n - 1))" by simp
  also have "\<dots> \<le> of_int ?n" using lo by (simp only: of_int_le_iff)
  also have "\<dots> \<le> x" by simp
  finally have A: "2 powi (bitlen ?n - 1) \<le> x" .
  from hi have "?n + 1 \<le> 2 ^ nat (bitlen ?n)" by simp
  then have "of_int (?n + 1) \<le> (of_int (2 ^ nat (bitlen ?n)) :: real)"
    by (simp only: of_int_le_iff)
  moreover have "x < of_int (?n + 1)" by linarith
  ultimately have "x < of_int (2 ^ nat (bitlen ?n))" by linarith
  then have "x < 2 ^ nat (bitlen ?n)" by simp
  also have "\<dots> = (2::real) powi (bitlen ?n)"
    using b1 by (simp add: power_int_nonneg_exp)
  finally have B: "x < 2 powi (bitlen ?n)" .
  from True A B show ?thesis by (simp add: binade_def)
next
  case False
  with assms have x1: "x < 1" by simp
  let ?y = "1 / x"
  let ?k = "\<lceil>?y\<rceil> - 1"
  from assms x1 have y1: "1 < ?y" by simp
  then have "2 \<le> \<lceil>?y\<rceil>" by linarith
  then have k: "0 < ?k" by simp
  from bitlen_bounds [OF k] have lo: "2 ^ nat (bitlen ?k - 1) \<le> ?k" and hi: "?k < 2 ^ nat (bitlen ?k)"
    by simp_all
  from k have b1: "1 \<le> bitlen ?k" by (simp add: bitlen_alt_def)
  have "(of_int (2 ^ nat (bitlen ?k - 1)) :: real) \<le> of_int ?k"
    using lo by (simp only: of_int_le_iff)
  moreover have "of_int ?k < ?y" by linarith
  ultimately have "of_int (2 ^ nat (bitlen ?k - 1)) < ?y" by linarith
  then have "2 ^ nat (bitlen ?k - 1) < ?y" by simp
  then have "(2::real) powi (bitlen ?k - 1) < ?y"
    using b1 by (simp add: power_int_nonneg_exp)
  then have "x * 2 powi (bitlen ?k - 1) < 1"
    using assms by (simp add: field_simps)
  then have "x < 1 / 2 powi (bitlen ?k - 1)"
    by (simp add: field_simps)
  also have "\<dots> = 2 powi (- bitlen ?k + 1)"
    by (simp add: power_int_minus_divide [symmetric])
  finally have B: "x < 2 powi (- bitlen ?k + 1)" .
  from hi have "?k + 1 \<le> 2 ^ nat (bitlen ?k)" by simp
  then have "of_int (?k + 1) \<le> (of_int (2 ^ nat (bitlen ?k)) :: real)"
    by (simp only: of_int_le_iff)
  moreover have "?y \<le> of_int (?k + 1)" by linarith
  ultimately have "?y \<le> of_int (2 ^ nat (bitlen ?k))" by linarith
  then have "?y \<le> 2 ^ nat (bitlen ?k)" by simp
  then have "?y \<le> (2::real) powi (bitlen ?k)"
    using b1 by (simp add: power_int_nonneg_exp)
  then have "1 \<le> x * 2 powi (bitlen ?k)"
    using assms by (simp add: field_simps)
  then have "1 / 2 powi (bitlen ?k) \<le> x"
    by (simp add: field_simps)
  then have A: "2 powi (- bitlen ?k) \<le> x"
    by (simp add: power_int_minus_divide)
  from False A B show ?thesis by (simp add: binade_def)
qed

lemma binade_mono:
  assumes "0 < x" "x \<le> y"
  shows "binade x \<le> binade y"
proof -
  from assms have "0 < y" by simp
  from binade_bounds [OF assms(1)] binade_bounds [OF \<open>0 < y\<close>] assms(2)
  have lt: "(2::real) powi binade x < 2 powi (binade y + 1)" by linarith
  have "binade x < binade y + 1"
  proof (rule ccontr)
    assume "\<not> binade x < binade y + 1"
    then have "binade y + 1 \<le> binade x" by simp
    then have "(2::real) powi (binade y + 1) \<le> 2 powi binade x"
      by (rule power_int_increasing) simp
    with lt show False by simp
  qed
  then show ?thesis by simp
qed

lemma nearest32_nonneg: "0 < x \<Longrightarrow> 0 \<le> nearest32 x"
proof -
  assume "0 < x"
  then have "of_int 0 \<le> x / 2 powi ulp_exponent x" by simp
  then have "0 \<le> round_half_even (x / 2 powi ulp_exponent x)"
    by (rule round_half_even_ge)
  then show ?thesis by (simp add: nearest32_def)
qed

lemma nearest32_mono:
  assumes "0 < x" "x \<le> y"
  shows "nearest32 x \<le> nearest32 y"
proof -
  from assms have y: "0 < y" by simp
  let ?qx = "ulp_exponent x" and ?qy = "ulp_exponent y"
  have q: "?qx \<le> ?qy"
    using binade_mono [OF assms] by (simp add: ulp_exponent_def)
  show ?thesis
  proof (cases "?qx = ?qy")
    case True
    have "x / 2 powi ?qy \<le> y / 2 powi ?qy"
      using assms(2) by (simp add: divide_right_mono)
    then have "round_half_even (x / 2 powi ?qy) \<le> round_half_even (y / 2 powi ?qy)"
      by (rule round_half_even_mono)
    then have "(of_int (round_half_even (x / 2 powi ?qy)) :: real)
        \<le> of_int (round_half_even (y / 2 powi ?qy))"
      by (simp only: of_int_le_iff)
    then show ?thesis
      unfolding nearest32_def True by (simp add: mult_right_mono)
  next
    case False
    with q have lt: "?qx < ?qy" by simp
    then have qy: "?qy = binade y - 23" and bx: "binade x + 1 \<le> binade y"
      by (auto simp: ulp_exponent_def)
    let ?B = "(2::real) powi binade y"
    have d: "0 \<le> binade y - ?qx" using lt qy by simp
    have Bq: "?B = of_int (2 ^ nat (binade y - ?qx)) * 2 powi ?qx"
    proof -
      have "(2::real) powi ((binade y - ?qx) + ?qx) = 2 powi (binade y - ?qx) * 2 powi ?qx"
        by (rule power_int_add) simp
      then have "?B = 2 powi (binade y - ?qx) * 2 powi ?qx" by simp
      also have "(2::real) powi (binade y - ?qx) = 2 ^ nat (binade y - ?qx)"
        using d by (rule power_int_nonneg_exp)
      finally show ?thesis by simp
    qed
    have "x < 2 powi (binade x + 1)"
      using binade_bounds [OF assms(1)] by simp
    also have "\<dots> \<le> ?B"
      using bx by (rule power_int_increasing) simp
    finally have "x < ?B" .
    then have "x / 2 powi ?qx \<le> ?B / 2 powi ?qx"
      by (simp add: divide_right_mono)
    also have "?B / 2 powi ?qx = of_int (2 ^ nat (binade y - ?qx))"
      by (subst Bq) simp
    finally have "round_half_even (x / 2 powi ?qx) \<le> 2 ^ nat (binade y - ?qx)"
      by (rule round_half_even_le)
    then have "(of_int (round_half_even (x / 2 powi ?qx)) :: real)
        \<le> of_int (2 ^ nat (binade y - ?qx))"
      by (simp only: of_int_le_iff)
    then have "nearest32 x \<le> of_int (2 ^ nat (binade y - ?qx)) * 2 powi ?qx"
      unfolding nearest32_def by (simp add: mult_right_mono)
    then have lo: "nearest32 x \<le> ?B" by (simp only: Bq [symmetric])
    have By: "?B = of_int (2 ^ 23) * 2 powi ?qy"
    proof -
      have "(2::real) powi (23 + (binade y - 23)) = 2 powi 23 * 2 powi (binade y - 23)"
        by (rule power_int_add) simp
      then show ?thesis unfolding qy by simp
    qed
    have "?B \<le> y" using binade_bounds [OF y] by simp
    then have "?B / 2 powi ?qy \<le> y / 2 powi ?qy"
      by (simp add: divide_right_mono)
    moreover have "?B / 2 powi ?qy = of_int (2 ^ 23)"
      by (subst By) simp
    ultimately have "of_int (2 ^ 23) \<le> y / 2 powi ?qy" by simp
    then have "2 ^ 23 \<le> round_half_even (y / 2 powi ?qy)"
      by (rule round_half_even_ge)
    then have "(of_int (2 ^ 23) :: real) \<le> of_int (round_half_even (y / 2 powi ?qy))"
      by (simp only: of_int_le_iff)
    then have "of_int (2 ^ 23) * 2 powi ?qy \<le> nearest32 y"
      unfolding nearest32_def by (simp add: mult_right_mono)
    then have "?B \<le> nearest32 y" by (simp only: By [symmetric])
    with lo show ?thesis by simp
  qed
qed

lemma to_float32_mono:
  assumes "x \<le> y"
  shows "np_ge (to_float32 y) (to_float32 x)"
proof -
  consider "0 < x" | "x = 0" | "x < 0" "0 \<le> y" | "y < 0" using assms by linarith
  then show ?thesis
  proof cases
    case 1
    with assms have "0 < y" by simp
    with 1 nearest32_mono [OF 1 assms] show ?thesis
      by (auto simp: to_float32_def Let_def)
  next
    case 2
    with assms nearest32_nonneg [of y] show ?thesis
      by (auto simp: to_float32_def Let_def)
  next
    case 3
    with nearest32_nonneg [of y] nearest32_nonneg [of "- x"] show ?thesis
      by (auto simp: to_float32_def Let_def)
  next
    case 4
    with assms have "0 < - y" "- y \<le> - x" by simp_all
    from nearest32_mono [OF this] 4 assms show ?thesis
      by (auto simp: to_float32_def Let_def)
  qed
qed

lemma to_float32_not_nan [simp]: "to_float32 x \<noteq> NaN"
  by (simp add: to_float32_def Let_def)

lemma np_lt_iff_not_ge: "t \<noteq> NaN \<Longrightarrow> np_lt (Fin c) t \<longleftrightarrow> \<not> np_ge (Fin c) t"
  by (cases t) auto

lemma float32_above_threshold:
  "is_float32 c \<Longrightarrow> thr \<le> c \<Longrightarrow> np_ge (Fin c) (to_float32 thr)"
  using to_float32_mono [of thr c] by (simp add: is_float32_def)

text \<open>The conversion at the thresholds used in the examples below.\<close>

lemma float32_of_zero: "to_float32 0 = Fin 0"
  by (simp add: to_float32_def)

lemma float32_of_two_fifths: "to_float32 (2/5) = Fin (13421773/33554432)"
  by code_simp

lemma float32_of_seven_tenths: "to_float32 (7/10) = Fin (11744051/16777216)"
  by code_simp

lemma float32_of_seven_eighths: "to_float32 (7/8) = Fin (7/8)"
  by code_simp

lemma float32_of_three_quarters: "to_float32 (3/4) = Fin (3/4)"
  by code_simp

lemma float32_of_tiny: "to_float32 (1 / 2 ^ 151) = Fin 0"
  by code_simp

lemmas float32_values =
  float32_of_zero float32_of_two_fifths float32_of_seven_tenths float32_of_seven_eighths
  float32_of_three_quarters float32_of_tiny


subsection \<open>Sums over numpy values\<close>

lemma np_sum_Fin: "np_sum (map Fin xs) = Fin (sum_list xs)"
  by (induction xs) simp_all

lemma np_div_NaN [simp]: "np_div x NaN = NaN"
  by (cases x) simp_all

lemma np_add_NaN [simp]: "np_add x NaN = NaN"
  by (cases x) simp_all

lemma map2_mul_Fin: "map2 np_mul (map Fin xs) (map Fin ys) = map Fin (map2 (*) xs ys)"
proof (induction xs arbitrary: ys)
  case Nil
  then show ?case by simp
next
  case (Cons x xs)
  then show ?case by (cases ys) simp_all
qed

lemma div_weights_Fin:
  "s \<noteq> 0 \<Longrightarrow> map (\<lambda>w. np_div w (Fin s)) (map Fin cs) = map Fin (map (\<lambda>c. c / s) cs)"
  by (induction cs) simp_all

lemma div_weights_zero:
  "map (\<lambda>w. np_div w (Fin 0)) (map Fin cs) = map signed_inf cs"
  by (induction cs) simp_all

lemma sum_list_scaled: "sum_list (map (\<lambda>c. c / s) cs) = sum_list cs / (s::real)"
  by (induction cs) (simp_all add: add_divide_distrib)

lemma sum_list_pos: "cs \<noteq> [] \<Longrightarrow> \<forall>c\<in>set cs. 0 < c \<Longrightarrow> 0 < sum_list (cs::real list)"
proof (induction cs)
  case Nil
  then show ?case by simp
next
  case (Cons c cs)
  show ?case
  proof (cases "cs = []")
    case True
    with Cons.prems show ?thesis by simp
  next
    case False
    with Cons have "0 < sum_list cs" "0 < c" by simp_all
    then show ?thesis by simp
  qed
qed

lemma sum_list_neg:
  assumes "cs \<noteq> []" "\<forall>c\<in>set cs. c < 0"
  shows "sum_list (cs::real list) < 0"
proof -
  have "0 < sum_list (map uminus cs)"
    using assms by (intro sum_list_pos) auto
  moreover have "sum_list (map uminus cs) = - sum_list cs"
    by (induction cs) simp_all
  ultimately show ?thesis by simp
qed

lemma np_sum_signed_inf_cases:
  "cs \<noteq> [] \<Longrightarrow>
     (np_sum (map signed_inf cs) = PInf \<and> (\<forall>c\<in>set cs. 0 < c)) \<or>
     (np_sum (map signed_inf cs) = NInf \<and> (\<forall>c\<in>set cs. c < 0)) \<or>
     np_sum (map signed_inf cs) = NaN"
proof (induction cs)
  case Nil
  then show ?case by simp
next
  case (Cons c cs)
  show ?case
  proof (cases "cs = []")
    case True
    then show ?thesis by (simp add: signed_inf_def)
  next
    case False
    from Cons.IH [OF False] show ?thesis
      by (auto simp: signed_inf_def)
  qed
qed

lemma np_sum_zero_total:
  assumes "cs \<noteq> []" "sum_list cs = 0"
  shows "np_sum (map signed_inf cs) = NaN"
  using np_sum_signed_inf_cases [OF assms(1)] sum_list_pos [of cs] sum_list_neg [of cs] assms
  by auto

subsection \<open>The average computed by the source is the weighted mean\<close>

lemma sum_weighted_column:
  "sum_list (map2 (*) (map f rs) (map (\<lambda>c. c / s) (map g rs))) = (\<Sum>r\<leftarrow>rs. g r / s * f (r::'a) :: real)"
  by (induction rs) (simp_all add: mult.commute)

lemma column_Fin: "map (\<lambda>d. Fin (f d)) rs = map Fin (map f rs)"
  by simp

lemma np_sum_column: "np_sum (map (\<lambda>d. Fin (f d)) rs) = Fin (sum_list (map f rs))"
  by (induction rs) simp_all

lemma weighted_column_Fin:
  assumes "s \<noteq> 0"
  shows "np_sum (map2 np_mul (map (\<lambda>d. Fin (f d)) rs) (map (\<lambda>w. np_div w (Fin s)) (map (\<lambda>d. Fin (g d)) rs)))
           = Fin (\<Sum>r\<leftarrow>rs. g r / s * f r)"
proof -
  have "map (\<lambda>w. np_div w (Fin s)) (map (\<lambda>d. Fin (g d)) rs) = map Fin (map (\<lambda>c. c / s) (map g rs))"
    using div_weights_Fin [OF assms, of "map g rs"] by (simp add: o_def)
  then show ?thesis
    by (simp only: column_Fin [of f] map2_mul_Fin np_sum_Fin sum_weighted_column)
qed

lemma weights_sum_Fin:
  assumes "s \<noteq> 0"
  shows "np_sum (map (\<lambda>w. np_div w (Fin s)) (map (\<lambda>d. Fin (g d)) rs)) = Fin (sum_list (map g rs) / s)"
proof -
  have "map (\<lambda>w. np_div w (Fin s)) (map (\<lambda>d. Fin (g d)) rs) = map Fin (map (\<lambda>c. c / s) (map g rs))"
    using div_weights_Fin [OF assms, of "map g rs"] by (simp add: o_def)
  then show ?thesis
    by (simp only: np_sum_Fin sum_list_scaled)
qed

lemma weighted_average_finite:
  assumes "weight_sum reps \<noteq> 0"
  shows "weighted_average reps =
     Inr ([Fin (weighted_mean x_min reps), Fin (weighted_mean y_min reps),
           Fin (weighted_mean x_max reps), Fin (weighted_mean y_max reps)],
          Fin (weighted_mean conf reps))"
proof -
  let ?s = "weight_sum reps"
  have tot: "np_sum (map (\<lambda>d. Fin (conf d)) reps) = Fin ?s"
    by (simp only: np_sum_column weight_sum_def)
  have scl: "np_sum (map (\<lambda>w. np_div w (Fin ?s)) (map (\<lambda>d. Fin (conf d)) reps)) = Fin 1"
    using assms weights_sum_Fin [OF assms, of conf reps] by (simp add: weight_sum_def)
  show ?thesis
    unfolding weighted_average_def normalized_weights_def Let_def np_average_def tot scl list.map
      weighted_column_Fin [OF assms]
    by (simp add: weighted_mean_def)
qed

lemma weighted_average_nan:
  assumes "reps \<noteq> []" "weight_sum reps = 0"
  shows "weighted_average reps = Inr ([NaN, NaN, NaN, NaN], NaN)"
proof -
  have tot: "np_sum (map (\<lambda>d. Fin (conf d)) reps) = Fin 0"
    using assms(2) by (simp only: np_sum_column weight_sum_def)
  have w0: "map (\<lambda>w. np_div w (Fin 0)) (map (\<lambda>d. Fin (conf d)) reps) = map signed_inf (map conf reps)"
    by (induction reps) simp_all
  have "np_sum (map signed_inf (map conf reps)) = NaN"
    using assms by (intro np_sum_zero_total) (simp_all add: weight_sum_def)
  then have scl: "np_sum (map (\<lambda>w. np_div w (Fin 0)) (map (\<lambda>d. Fin (conf d)) reps)) = NaN"
    by (simp only: w0)
  show ?thesis
    unfolding weighted_average_def normalized_weights_def Let_def np_average_def tot scl
    by simp
qed

lemma smooth_emit_eq:
  "smooth_emit thr smoothed_dets =
     (if smoothed_dets = [] then Inr None
      else case weighted_average smoothed_dets of
             Inl e \<Rightarrow> Inl e
           | Inr (avg_box, avg_conf) \<Rightarrow>
               if np_ge avg_conf (to_float32 thr)
               then (case smoothed_row avg_box avg_conf of
                       Some row \<Rightarrow> Inr (Some row)
                     | None \<Rightarrow> Inl NonFiniteTensor)
               else Inr None)"
  by (simp add: smooth_emit_def smooth_emit_with_def)

lemma smooth_emit_cases:
  "smooth_emit thr reps =
     (if weight_sum reps \<noteq> 0 \<and> np_ge (Fin (weighted_mean conf reps)) (to_float32 thr)
      then Inr (Some \<lparr>x_min = weighted_mean x_min reps, y_min = weighted_mean y_min reps,
                      x_max = weighted_mean x_max reps, y_max = weighted_mean y_max reps,
                      conf = weighted_mean conf reps, class_id = 0\<rparr>)
      else Inr None)"
proof (cases "weight_sum reps = 0")
  case True
  show ?thesis
  proof (cases "reps = []")
    case True
    then show ?thesis by (simp add: smooth_emit_eq weight_sum_def)
  next
    case False
    with True show ?thesis
      by (simp add: smooth_emit_eq weighted_average_nan)
  qed
next
  case False
  then have "reps \<noteq> []" by (auto simp: weight_sum_def)
  with False show ?thesis
    by (simp add: smooth_emit_eq weighted_average_finite smoothed_row_def)
qed

subsection \<open>The history update\<close>

lemma bounded_append_eq:
  "bounded_append w hist e = (if w < int (length (hist @ [e])) then tl (hist @ [e]) else hist @ [e])"
  by (simp add: bounded_append_def Let_def)

lemma frame_step_with_empty:
  "filtered_set a dets = [] \<Longrightarrow>
     frame_step_with average a hist dets = (evict_oldest hist, Inr NoDetection)"
  by (auto simp: frame_step_with_def filtered_set_def confidence_filter_def split: list.splits)

lemma frame_step_with_disabled:
  "filtered_set a dets \<noteq> [] \<Longrightarrow> \<not> 1 < smooth_frames a \<Longrightarrow>
     frame_step_with average a hist dets = (hist, Inr (RawSet (filtered_set a dets)))"
  by (auto simp: frame_step_with_def filtered_set_def confidence_filter_def split: list.splits)

lemma frame_step_with_smoothing:
  "filtered_set a dets \<noteq> [] \<Longrightarrow> 1 < smooth_frames a \<Longrightarrow>
     frame_step_with average a hist dets =
       (let hist' = bounded_append (smooth_frames a) hist (filtered_set a dets)
        in (hist',
            if 2 \<le> length hist'
            then (case smooth_emit_with average (conf_threshold a) (representatives hist') of
                    Inl e \<Rightarrow> Inl e
                  | Inr None \<Rightarrow> Inr NoDetection
                  | Inr (Some row) \<Rightarrow> Inr (Stabilized row))
            else Inr (RawSet (filtered_set a dets))))"
  by (auto simp: frame_step_with_def filtered_set_def confidence_filter_def bounded_append_eq
           Let_def split: list.splits)


lemma frame_step_empty:
  "filtered_set a dets = [] \<Longrightarrow> frame_step a hist dets = (evict_oldest hist, Inr NoDetection)"
  by (simp add: frame_step_def frame_step_with_empty)

lemma frame_step_disabled:
  "filtered_set a dets \<noteq> [] \<Longrightarrow> \<not> 1 < smooth_frames a \<Longrightarrow>
     frame_step a hist dets = (hist, Inr (RawSet (filtered_set a dets)))"
  by (simp add: frame_step_def frame_step_with_disabled)

lemma frame_step_smoothing:
  "filtered_set a dets \<noteq> [] \<Longrightarrow> 1 < smooth_frames a \<Longrightarrow>
     frame_step a hist dets =
       (let hist' = bounded_append (smooth_frames a) hist (filtered_set a dets)
        in (hist',
            if 2 \<le> length hist'
            then (case smooth_emit (conf_threshold a) (representatives hist') of
                    Inl e \<Rightarrow> Inl e
                  | Inr None \<Rightarrow> Inr NoDetection
                  | Inr (Some row) \<Rightarrow> Inr (Stabilized row))
            else Inr (RawSet (filtered_set a dets))))"
  unfolding frame_step_def smooth_emit_def by (rule frame_step_with_smoothing)

lemma fst_frame_step:
  "fst (frame_step a hist dets) =
     (if filtered_set a dets = [] then evict_oldest hist
      else if 1 < smooth_frames a then bounded_append (smooth_frames a) hist (filtered_set a dets)
      else hist)"
  by (simp add: frame_step_empty frame_step_disabled frame_step_smoothing Let_def)

lemma evict_oldest_drop: "evict_oldest hist = drop 1 hist"
  by (cases hist) (simp_all add: evict_oldest_def)

lemma length_bounded_append:
  "int (length hist) \<le> w \<Longrightarrow> int (length (bounded_append w hist e)) \<le> w"
  by (simp add: bounded_append_eq)

lemma length_frame_step:
  "int (length hist) \<le> smooth_frames a \<Longrightarrow>
     int (length (fst (frame_step a hist dets))) \<le> smooth_frames a"
  by (auto simp: fst_frame_step length_bounded_append evict_oldest_drop)

lemma history_after_Nil [simp]: "history_after a hist [] = hist"
  by (simp add: history_after_def)

lemma history_after_Cons [simp]:
  "history_after a hist (d # ds) = history_after a (fst (frame_step a hist d)) ds"
  by (simp add: history_after_def)

lemma history_after_append:
  "history_after a hist (xs @ ys) = history_after a (history_after a hist xs) ys"
  by (simp add: history_after_def)

lemma length_history_after:
  "int (length hist) \<le> smooth_frames a \<Longrightarrow>
     int (length (history_after a hist frames)) \<le> smooth_frames a"
  by (induction frames arbitrary: hist) (simp_all add: length_frame_step)

lemma history_after_empty_frames:
  "\<forall>d\<in>set frames. filtered_set a d = [] \<Longrightarrow>
     history_after a hist frames = drop (length frames) hist"
proof (induction frames arbitrary: hist)
  case Nil
  then show ?case by simp
next
  case (Cons d ds)
  then show ?case by (simp add: fst_frame_step evict_oldest_drop)
qed

lemma argmax_less: "xs \<noteq> [] \<Longrightarrow> argmax xs < length xs"
  by (induction xs rule: argmax.induct) (simp_all add: Let_def)


lemma argmax_first: "i < argmax xs \<Longrightarrow> xs ! i < xs ! argmax xs"
proof (induction xs arbitrary: i rule: argmax.induct)
  case 1
  then show ?case by simp
next
  case (2 y)
  then show ?case by simp
next
  case (3 y z zs)
  then show ?case by (cases i) (auto simp: Let_def split: if_splits)
qed

lemma best_of_member: "e \<noteq> [] \<Longrightarrow> best_of e \<in> set e"
  using argmax_less [of "map conf e"] by (simp add: best_of_def)


lemma representatives_best_of:
  "representatives hist = map best_of (filter (\<lambda>e. e \<noteq> []) hist)"
  by (simp add: representatives_def best_of_def)

lemma representatives_inv:
  "hist_inv thr hist \<Longrightarrow> representatives hist = map best_of hist"
proof -
  assume "hist_inv thr hist"
  then have "filter (\<lambda>e. e \<noteq> []) hist = hist"
    by (induction hist) (simp_all add: hist_inv_def)
  then show ?thesis by (simp add: representatives_best_of)
qed

lemma hist_inv_conf:
  assumes "hist_inv thr hist" "r \<in> set (representatives hist)"
  shows "np_ge (Fin (conf r)) (to_float32 thr)"
proof -
  from assms obtain e where e: "e \<in> set hist" "r = best_of e"
    by (auto simp: representatives_inv)
  with assms(1) have "e \<noteq> []" "\<forall>d\<in>set e. np_ge (Fin (conf d)) (to_float32 thr)"
    by (auto simp: hist_inv_def list_all_iff)
  with e best_of_member [of e] show ?thesis by auto
qed

lemma hist_inv_tl: "hist_inv thr hist \<Longrightarrow> hist_inv thr (tl hist)"
  by (cases hist) (simp_all add: hist_inv_def)

lemma hist_inv_filtered:
  "filtered_set a dets \<noteq> [] \<Longrightarrow> hist_inv (conf_threshold a) [filtered_set a dets]"
  by (auto simp: hist_inv_def filtered_set_def confidence_filter_def list_all_iff split: list.splits)

lemma hist_inv_append:
  "hist_inv thr (xs @ ys) = (hist_inv thr xs \<and> hist_inv thr ys)"
  by (simp add: hist_inv_def)

lemma hist_inv_step:
  "hist_inv (conf_threshold a) hist \<Longrightarrow> hist_inv (conf_threshold a) (fst (frame_step a hist dets))"
  by (auto simp: fst_frame_step evict_oldest_def bounded_append_eq hist_inv_tl hist_inv_append
      hist_inv_filtered)

lemma hist_inv_after:
  "hist_inv (conf_threshold a) hist \<Longrightarrow> hist_inv (conf_threshold a) (history_after a hist frames)"
  by (induction frames arbitrary: hist) (simp_all add: hist_inv_step)

lemma passing_is_positive: "np_ge (Fin c) t \<Longrightarrow> \<not> np_ge (Fin 0) t \<Longrightarrow> 0 < c"
  by (cases t) auto

lemma weight_sum_positive:
  assumes "hist_inv thr hist" "hist \<noteq> []" "\<not> np_ge (Fin 0) (to_float32 thr)"
  shows "0 < weight_sum (representatives hist)"
proof -
  have "representatives hist \<noteq> []"
    using assms(1,2) by (simp add: representatives_inv)
  moreover have "\<forall>c\<in>set (map conf (representatives hist)). 0 < c"
  proof
    fix c
    assume "c \<in> set (map conf (representatives hist))"
    then obtain r where r: "r \<in> set (representatives hist)" "c = conf r" by auto
    from hist_inv_conf [OF assms(1) r(1)] assms(3) r(2) show "0 < c"
      by (simp add: passing_is_positive)
  qed
  ultimately show ?thesis
    unfolding weight_sum_def by (intro sum_list_pos) simp_all
qed

subsection \<open>The output of a frame\<close>

lemma snd_frame_step_smoothing:
  assumes "filtered_set a dets \<noteq> []" "1 < smooth_frames a" "2 \<le> length (fst (frame_step a hist dets))"
  shows "snd (frame_step a hist dets) =
     (let reps = representatives (fst (frame_step a hist dets))
      in if weight_sum reps \<noteq> 0 \<and>
            np_ge (Fin (weighted_mean conf reps)) (to_float32 (conf_threshold a))
         then Inr (Stabilized \<lparr>x_min = weighted_mean x_min reps, y_min = weighted_mean y_min reps,
                      x_max = weighted_mean x_max reps, y_max = weighted_mean y_max reps,
                      conf = weighted_mean conf reps, class_id = 0\<rparr>)
         else Inr NoDetection)"
  using assms by (simp add: frame_step_smoothing Let_def smooth_emit_cases)

lemma snd_frame_step_raw:
  assumes "filtered_set a dets \<noteq> []" "\<not> (1 < smooth_frames a \<and> 2 \<le> length (fst (frame_step a hist dets)))"
  shows "snd (frame_step a hist dets) = Inr (RawSet (filtered_set a dets))"
proof (cases "1 < smooth_frames a")
  case True
  with assms show ?thesis by (simp add: frame_step_smoothing Let_def)
next
  case False
  with assms show ?thesis by (simp add: frame_step_disabled)
qed

lemma frame_step_no_error: "snd (frame_step a hist dets) \<noteq> Inl e"
proof (cases "filtered_set a dets = []")
  case True
  then show ?thesis by (simp add: frame_step_empty)
next
  case False
  show ?thesis
  proof (cases "1 < smooth_frames a \<and> 2 \<le> length (fst (frame_step a hist dets))")
    case True
    with False show ?thesis by (simp add: snd_frame_step_smoothing Let_def)
  next
    case False
    with \<open>filtered_set a dets \<noteq> []\<close> show ?thesis by (simp add: snd_frame_step_raw)
  qed
qed

lemma stabilized_only_when_smoothing:
  assumes "snd (frame_step a hist dets) = Inr (Stabilized row)"
  shows "filtered_set a dets \<noteq> [] \<and> 1 < smooth_frames a \<and> 2 \<le> length (fst (frame_step a hist dets))"
proof (cases "filtered_set a dets = []")
  case True
  with assms show ?thesis by (simp add: frame_step_empty)
next
  case False
  show ?thesis
  proof (cases "1 < smooth_frames a \<and> 2 \<le> length (fst (frame_step a hist dets))")
    case True
    with False show ?thesis by simp
  next
    case no: False
    with False assms show ?thesis using snd_frame_step_raw [OF False no] by simp
  qed
qed

subsection \<open>Degenerate weights, the renderer and the generator\<close>

lemma history_stays_empty:
  "\<not> 1 < smooth_frames a \<Longrightarrow> history_after a [] frames = []"
  by (induction frames) (simp_all add: fst_frame_step evict_oldest_def)

lemma weight_sum_all_zero: "\<forall>r\<in>set reps. conf r = 0 \<Longrightarrow> weight_sum reps = 0"
  by (induction reps) (simp_all add: weight_sum_def)

lemma draw_detections_labels:
  "map label_conf (draw_detections frame_h frame_w ds thr) = map conf (confidence_filter thr ds)"
  by (induction ds) (simp_all add: confidence_filter_def np_lt_iff_not_ge)

lemma generate_loop_result:
  "generate_loop a hist fs =
     (history_after a hist (map decoded fs),
      map (\<lambda>f. multipart_chunk (the (jpeg f))) (filter (\<lambda>f. jpeg f \<noteq> None) fs),
      None)"
proof (induction fs arbitrary: hist)
  case Nil
  then show ?case by simp
next
  case (Cons f fs)
  obtain hist' res where step: "frame_step a hist (decoded f) = (hist', res)"
    by (cases "frame_step a hist (decoded f)")
  with frame_step_no_error [of a hist "decoded f"] obtain out where res: "res = Inr out"
    by (cases res) auto
  from step have h: "fst (frame_step a hist (decoded f)) = hist'" by simp
  show ?case
    by (cases "jpeg f") (simp_all add: step res h Cons.IH)
qed

lemma clamp_px_range: "0 < extent \<Longrightarrow> 0 \<le> clamp_px extent v \<and> clamp_px extent v \<le> extent - 1"
  by (simp add: clamp_px_def)

lemma smoothing_has_representative:
  assumes "filtered_set a detections \<noteq> []" "1 < smooth_frames a"
  shows "representatives (fst (frame_step a hist detections)) \<noteq> []"
proof -
  have "filtered_set a detections \<in> set (fst (frame_step a hist detections))"
    using assms by (cases hist) (simp_all add: fst_frame_step bounded_append_eq)
  then have "filter (\<lambda>e. e \<noteq> []) (fst (frame_step a hist detections)) \<noteq> []"
    using assms(1) by (auto simp: filter_empty_conv)
  then show ?thesis
    by (simp add: representatives_best_of)
qed

section \<open>The claims\<close>

text \<open>
  Claim C2. A detection history of length at most \<open>W = smooth_frames\<close> has length at
  most \<open>W\<close> after the update of any frame, and so after any sequence of frames. The
  history is empty when the server starts, which is within the bound for every window
  size \<open>W \<ge> 0\<close>.
\<close>

theorem history_length_bounded:
  "int (length hist) \<le> smooth_frames a \<Longrightarrow>
     int (length (fst (frame_step a hist detections))) \<le> smooth_frames a \<and>
     int (length (history_after a hist frames)) \<le> smooth_frames a"
  by (simp add: length_frame_step length_history_after)

theorem history_length_bounded_witness:
  "int (length ([] :: history)) \<le> smooth_frames \<lparr>conf_threshold = 2/5, smooth_frames = 2\<rparr> \<and>
   history_after \<lparr>conf_threshold = 2/5, smooth_frames = 2\<rparr> []
      [[[\<lparr>x_min = 0, y_min = 0, x_max = 1/2, y_max = 1/2, conf = 1/2, class_id = 0\<rparr>]],
       [[\<lparr>x_min = 0, y_min = 0, x_max = 1/2, y_max = 1/2, conf = 3/5, class_id = 0\<rparr>]],
       [[\<lparr>x_min = 0, y_min = 0, x_max = 1/2, y_max = 1/2, conf = 7/10, class_id = 0\<rparr>]]]
     = [[\<lparr>x_min = 0, y_min = 0, x_max = 1/2, y_max = 1/2, conf = 3/5, class_id = 0\<rparr>],
        [\<lparr>x_min = 0, y_min = 0, x_max = 1/2, y_max = 1/2, conf = 7/10, class_id = 0\<rparr>]] \<and>
   int (length (history_after \<lparr>conf_threshold = 2/5, smooth_frames = 2\<rparr> []
      [[[\<lparr>x_min = 0, y_min = 0, x_max = 1/2, y_max = 1/2, conf = 1/2, class_id = 0\<rparr>]],
       [[\<lparr>x_min = 0, y_min = 0, x_max = 1/2, y_max = 1/2, conf = 3/5, class_id = 0\<rparr>]],
       [[\<lparr>x_min = 0, y_min = 0, x_max = 1/2, y_max = 1/2, conf = 7/10, class_id = 0\<rparr>]]]))
     \<le> 2"
  using history_length_bounded [of "[]" "\<lparr>conf_threshold = 2/5, smooth_frames = 2\<rparr>" "[]"
      "[[[\<lparr>x_min = 0, y_min = 0, x_max = 1/2, y_max = 1/2, conf = 1/2, class_id = 0\<rparr>]],
       [[\<lparr>x_min = 0, y_min = 0, x_max = 1/2, y_max = 1/2, conf = 3/5, class_id = 0\<rparr>]],
       [[\<lparr>x_min = 0, y_min = 0, x_max = 1/2, y_max = 1/2, conf = 7/10, class_id = 0\<rparr>]]]"]
  by (simp add: fst_frame_step filtered_set_def confidence_filter_def float32_values bounded_append_eq)




text \<open>
  Claim C4. With \<open>W > 1\<close>, a frame whose filtered detection set is empty removes the
  oldest history entry if there is one and appends nothing (the history becomes
  \<open>drop 1\<close> of itself); and after \<open>W + 1\<close> consecutive such frames, fed to any history
  reached from the initial empty one, the history is empty.
\<close>

theorem empty_frames_drain_history:
  assumes "1 < smooth_frames a"
  shows "(filtered_set a detections = [] \<longrightarrow> fst (frame_step a hist detections) = drop 1 hist) \<and>
         ((\<forall>d\<in>set empties. filtered_set a d = []) \<longrightarrow>
          length empties = nat (smooth_frames a) + 1 \<longrightarrow>
          history_after a (history_after a [] frames) empties = [])"
proof (intro conjI impI)
  assume "filtered_set a detections = []"
  then show "fst (frame_step a hist detections) = drop 1 hist"
    by (simp add: frame_step_empty evict_oldest_drop)
next
  assume empty: "\<forall>d\<in>set empties. filtered_set a d = []"
    and n: "length empties = nat (smooth_frames a) + 1"
  have "int (length (history_after a [] frames)) \<le> smooth_frames a"
    using assms by (intro length_history_after) simp
  with n have "length (history_after a [] frames) \<le> length empties" by linarith
  then show "history_after a (history_after a [] frames) empties = []"
    by (simp add: history_after_empty_frames [OF empty])
qed

theorem empty_frames_drain_history_witness:
  "1 < smooth_frames \<lparr>conf_threshold = 2/5, smooth_frames = 2\<rparr> \<and>
   filtered_set \<lparr>conf_threshold = 2/5, smooth_frames = 2\<rparr>
      [[\<lparr>x_min = 0, y_min = 0, x_max = 1/2, y_max = 1/2, conf = 3/10, class_id = 0\<rparr>]] = [] \<and>
   fst (frame_step \<lparr>conf_threshold = 2/5, smooth_frames = 2\<rparr>
      [[\<lparr>x_min = 0, y_min = 0, x_max = 1/2, y_max = 1/2, conf = 1/2, class_id = 0\<rparr>],
       [\<lparr>x_min = 0, y_min = 0, x_max = 1/2, y_max = 1/2, conf = 3/5, class_id = 0\<rparr>]]
      [[\<lparr>x_min = 0, y_min = 0, x_max = 1/2, y_max = 1/2, conf = 3/10, class_id = 0\<rparr>]])
     = [[\<lparr>x_min = 0, y_min = 0, x_max = 1/2, y_max = 1/2, conf = 3/5, class_id = 0\<rparr>]] \<and>
   list_all (\<lambda>d. filtered_set \<lparr>conf_threshold = 2/5, smooth_frames = 2\<rparr> d = [])
      [[], [[]], [[\<lparr>x_min = 0, y_min = 0, x_max = 1/2, y_max = 1/2, conf = 3/10, class_id = 0\<rparr>]]] \<and>
   length [[], [[]], [[\<lparr>x_min = 0, y_min = 0, x_max = 1/2, y_max = 1/2, conf = 3/10, class_id = 0::real\<rparr>]]]
     = nat (smooth_frames \<lparr>conf_threshold = 2/5, smooth_frames = 2\<rparr>) + 1 \<and>
   history_after \<lparr>conf_threshold = 2/5, smooth_frames = 2\<rparr> []
      [[[\<lparr>x_min = 0, y_min = 0, x_max = 1/2, y_max = 1/2, conf = 1/2, class_id = 0\<rparr>]],
       [[\<lparr>x_min = 0, y_min = 0, x_max = 1/2, y_max = 1/2, conf = 3/5, class_id = 0\<rparr>]]]
     = [[\<lparr>x_min = 0, y_min = 0, x_max = 1/2, y_max = 1/2, conf = 1/2, class_id = 0\<rparr>],
        [\<lparr>x_min = 0, y_min = 0, x_max = 1/2, y_max = 1/2, conf = 3/5, class_id = 0\<rparr>]] \<and>
   history_after \<lparr>conf_threshold = 2/5, smooth_frames = 2\<rparr>
      (history_after \<lparr>conf_threshold = 2/5, smooth_frames = 2\<rparr> []
        [[[\<lparr>x_min = 0, y_min = 0, x_max = 1/2, y_max = 1/2, conf = 1/2, class_id = 0\<rparr>]],
         [[\<lparr>x_min = 0, y_min = 0, x_max = 1/2, y_max = 1/2, conf = 3/5, class_id = 0\<rparr>]]])
      [[], [[]], [[\<lparr>x_min = 0, y_min = 0, x_max = 1/2, y_max = 1/2, conf = 3/10, class_id = 0\<rparr>]]]
     = []"
  using empty_frames_drain_history [of "\<lparr>conf_threshold = 2/5, smooth_frames = 2\<rparr>"
      "[[\<lparr>x_min = 0, y_min = 0, x_max = 1/2, y_max = 1/2, conf = 3/10, class_id = 0\<rparr>]]"
      "[[\<lparr>x_min = 0, y_min = 0, x_max = 1/2, y_max = 1/2, conf = 1/2, class_id = 0\<rparr>],
        [\<lparr>x_min = 0, y_min = 0, x_max = 1/2, y_max = 1/2, conf = 3/5, class_id = 0\<rparr>]]"
      "[[], [[]], [[\<lparr>x_min = 0, y_min = 0, x_max = 1/2, y_max = 1/2, conf = 3/10, class_id = 0\<rparr>]]]"
      "[[[\<lparr>x_min = 0, y_min = 0, x_max = 1/2, y_max = 1/2, conf = 1/2, class_id = 0\<rparr>]],
        [[\<lparr>x_min = 0, y_min = 0, x_max = 1/2, y_max = 1/2, conf = 3/5, class_id = 0\<rparr>]]]"]
  by (simp add: fst_frame_step filtered_set_def confidence_filter_def float32_values bounded_append_eq
      evict_oldest_def)

text \<open>
  Claim C5, as stated, makes the output the single highest-confidence entry.
  Counterexample: with \<open>W = 1\<close> and two detections above the threshold, the frame hands
  both to the renderer, which draws two boxes.
\<close>

theorem unsmoothed_output_is_whole_set_counterexample:
  "smooth_frames \<lparr>conf_threshold = 2/5, smooth_frames = 1\<rparr> \<le> 1 \<and>
   snd (frame_step \<lparr>conf_threshold = 2/5, smooth_frames = 1\<rparr> []
      [[\<lparr>x_min = 1/10, y_min = 1/5, x_max = 1/2, y_max = 3/5, conf = 9/10, class_id = 0\<rparr>,
        \<lparr>x_min = 3/5, y_min = 1/5, x_max = 4/5, y_max = 2/5, conf = 1/2, class_id = 0\<rparr>]])
     = Inr (RawSet
        [\<lparr>x_min = 1/10, y_min = 1/5, x_max = 1/2, y_max = 3/5, conf = 9/10, class_id = 0\<rparr>,
         \<lparr>x_min = 3/5, y_min = 1/5, x_max = 4/5, y_max = 2/5, conf = 1/2, class_id = 0\<rparr>]) \<and>
   drawn_detections (RawSet
        [\<lparr>x_min = 1/10, y_min = 1/5, x_max = 1/2, y_max = 3/5, conf = 9/10, class_id = 0\<rparr>,
         \<lparr>x_min = 3/5, y_min = 1/5, x_max = 4/5, y_max = 2/5, conf = 1/2, class_id = 0\<rparr>])
     \<noteq> [best_of
        [\<lparr>x_min = 1/10, y_min = 1/5, x_max = 1/2, y_max = 3/5, conf = 9/10, class_id = 0\<rparr>,
         \<lparr>x_min = 3/5, y_min = 1/5, x_max = 4/5, y_max = 2/5, conf = 1/2, class_id = 0\<rparr>]] \<and>
   length (draw_detections 480 640 (drawn_detections (RawSet
        [\<lparr>x_min = 1/10, y_min = 1/5, x_max = 1/2, y_max = 3/5, conf = 9/10, class_id = 0\<rparr>,
         \<lparr>x_min = 3/5, y_min = 1/5, x_max = 4/5, y_max = 2/5, conf = 1/2, class_id = 0\<rparr>])) (2/5)) = 2"
  by (simp add: frame_step_def frame_step_with_def confidence_filter_def float32_values drawn_detections_def)

text \<open>
  Claim C5, amended. With \<open>W \<le> 1\<close> no averaging is performed and nothing is ever appended
  to the history: a frame with a non-empty filtered set leaves the history untouched and
  outputs the whole filtered set, unmodified; a frame with an empty filtered set outputs
  nothing and its only access to the history is the eviction of the oldest entry, if
  any, so that the history, empty at the start, stays empty.
\<close>

theorem smoothing_disabled_passes_filtered_set:
  assumes "smooth_frames a \<le> 1"
  shows "(filtered_set a detections \<noteq> [] \<longrightarrow>
            frame_step a hist detections = (hist, Inr (RawSet (filtered_set a detections)))) \<and>
         (filtered_set a detections = [] \<longrightarrow>
            frame_step a hist detections = (drop 1 hist, Inr NoDetection)) \<and>
         (\<forall>row. snd (frame_step a hist detections) \<noteq> Inr (Stabilized row)) \<and>
         history_after a [] frames = []"
proof (intro conjI impI allI)
  from assms have off: "\<not> 1 < smooth_frames a" by simp
  show "frame_step a hist detections = (hist, Inr (RawSet (filtered_set a detections)))"
    if "filtered_set a detections \<noteq> []"
    using that off by (rule frame_step_disabled)
  show "frame_step a hist detections = (drop 1 hist, Inr NoDetection)"
    if "filtered_set a detections = []"
    using that by (simp add: frame_step_empty evict_oldest_drop)
  show "snd (frame_step a hist detections) \<noteq> Inr (Stabilized row)" for row
    using stabilized_only_when_smoothing [of a hist detections row] off by blast
  show "history_after a [] frames = []"
    using off by (rule history_stays_empty)
qed

theorem smoothing_disabled_passes_filtered_set_witness:
  "smooth_frames \<lparr>conf_threshold = 2/5, smooth_frames = 1\<rparr> \<le> 1 \<and>
   filtered_set \<lparr>conf_threshold = 2/5, smooth_frames = 1\<rparr>
      [[\<lparr>x_min = 1/10, y_min = 1/5, x_max = 1/2, y_max = 3/5, conf = 9/10, class_id = 0\<rparr>,
        \<lparr>x_min = 3/5, y_min = 1/5, x_max = 4/5, y_max = 2/5, conf = 3/10, class_id = 0\<rparr>]]
     = [\<lparr>x_min = 1/10, y_min = 1/5, x_max = 1/2, y_max = 3/5, conf = 9/10, class_id = 0\<rparr>] \<and>
   frame_step \<lparr>conf_threshold = 2/5, smooth_frames = 1\<rparr> []
      [[\<lparr>x_min = 1/10, y_min = 1/5, x_max = 1/2, y_max = 3/5, conf = 9/10, class_id = 0\<rparr>,
        \<lparr>x_min = 3/5, y_min = 1/5, x_max = 4/5, y_max = 2/5, conf = 3/10, class_id = 0\<rparr>]]
     = ([], Inr (RawSet [\<lparr>x_min = 1/10, y_min = 1/5, x_max = 1/2, y_max = 3/5, conf = 9/10, class_id = 0\<rparr>])) \<and>
   filtered_set \<lparr>conf_threshold = 2/5, smooth_frames = 1\<rparr> [] = [] \<and>
   frame_step \<lparr>conf_threshold = 2/5, smooth_frames = 1\<rparr> [] [] = ([], Inr NoDetection)"
  using smoothing_disabled_passes_filtered_set [of "\<lparr>conf_threshold = 2/5, smooth_frames = 1\<rparr>"
      "[[\<lparr>x_min = 1/10, y_min = 1/5, x_max = 1/2, y_max = 3/5, conf = 9/10, class_id = 0\<rparr>,
        \<lparr>x_min = 3/5, y_min = 1/5, x_max = 4/5, y_max = 2/5, conf = 3/10, class_id = 0\<rparr>]]" "[]" "[]"]
    smoothing_disabled_passes_filtered_set [of "\<lparr>conf_threshold = 2/5, smooth_frames = 1\<rparr>" "[]" "[]" "[]"]
  by (simp add: filtered_set_def confidence_filter_def float32_values)

text \<open>
  Claim C6, as stated, has the weight normalisation guarded against a division by zero.
  Counterexample: for two representatives of confidence 0 the sum of the weights is 0 and
  line 158 divides by it all the same; the normalised weights are nan.
\<close>

theorem weight_normalisation_unguarded_counterexample:
  "np_sum (map (\<lambda>d. Fin (conf d))
      [\<lparr>x_min = 1/10, y_min = 1/5, x_max = 1/2, y_max = 3/5, conf = 0, class_id = 0\<rparr>,
       \<lparr>x_min = 1/5, y_min = 1/5, x_max = 3/5, y_max = 4/5, conf = 0, class_id = 0\<rparr>]) = Fin 0 \<and>
   normalized_weights
      [\<lparr>x_min = 1/10, y_min = 1/5, x_max = 1/2, y_max = 3/5, conf = 0, class_id = 0\<rparr>,
       \<lparr>x_min = 1/5, y_min = 1/5, x_max = 3/5, y_max = 4/5, conf = 0, class_id = 0\<rparr>] = [NaN, NaN]"
  by (simp add: normalized_weights_def signed_inf_def)

text \<open>
  Claim C6, amended. When the averaging runs (\<open>W > 1\<close>, a non-empty filtered set, 2 or
  more history entries) and every representative has confidence exactly 0, nothing
  guards the normalisation: it divides zero by zero, which in numpy yields nan weights
  and no exception; \<^verbatim>\<open>np.average\<close> does not raise either (a nan weight sum does not
  compare equal to zero), the average is nan, the threshold test fails, and the frame
  emits no detection and raises no error.
\<close>

theorem zero_confidences_give_no_detection:
  assumes "\<forall>r\<in>set (representatives (fst (frame_step a hist detections))). conf r = 0"
    and "filtered_set a detections \<noteq> []"
    and "1 < smooth_frames a"
    and "2 \<le> length (fst (frame_step a hist detections))"
  shows "weighted_average (representatives (fst (frame_step a hist detections)))
           = Inr ([NaN, NaN, NaN, NaN], NaN) \<and>
         smooth_emit (conf_threshold a) (representatives (fst (frame_step a hist detections)))
           = Inr None \<and>
         snd (frame_step a hist detections) = Inr NoDetection"
proof -
  let ?reps = "representatives (fst (frame_step a hist detections))"
  have zero: "weight_sum ?reps = 0"
    using assms(1) by (rule weight_sum_all_zero)
  have ne: "?reps \<noteq> []"
    using assms(2,3) by (rule smoothing_has_representative)
  from ne zero have "weighted_average ?reps = Inr ([NaN, NaN, NaN, NaN], NaN)"
    by (rule weighted_average_nan)
  moreover from zero have "smooth_emit (conf_threshold a) ?reps = Inr None"
    by (simp add: smooth_emit_cases)
  moreover from zero have "snd (frame_step a hist detections) = Inr NoDetection"
    by (simp add: snd_frame_step_smoothing [OF assms(2,3,4)] Let_def)
  ultimately show ?thesis by simp
qed

theorem zero_confidences_give_no_detection_witness:
  "fst (frame_step \<lparr>conf_threshold = 0, smooth_frames = 10\<rparr>
      [[\<lparr>x_min = 1/10, y_min = 1/5, x_max = 1/2, y_max = 3/5, conf = 0, class_id = 0\<rparr>]]
      [[\<lparr>x_min = 1/5, y_min = 1/5, x_max = 3/5, y_max = 4/5, conf = 0, class_id = 0\<rparr>]])
     = [[\<lparr>x_min = 1/10, y_min = 1/5, x_max = 1/2, y_max = 3/5, conf = 0, class_id = 0\<rparr>],
        [\<lparr>x_min = 1/5, y_min = 1/5, x_max = 3/5, y_max = 4/5, conf = 0, class_id = 0\<rparr>]] \<and>
   list_all (\<lambda>r. conf r = 0) (representatives
       [[\<lparr>x_min = 1/10, y_min = 1/5, x_max = 1/2, y_max = 3/5, conf = 0, class_id = 0\<rparr>],
        [\<lparr>x_min = 1/5, y_min = 1/5, x_max = 3/5, y_max = 4/5, conf = 0, class_id = 0\<rparr>]]) \<and>
   filtered_set \<lparr>conf_threshold = 0, smooth_frames = 10\<rparr>
      [[\<lparr>x_min = 1/5, y_min = 1/5, x_max = 3/5, y_max = 4/5, conf = 0, class_id = 0\<rparr>]] \<noteq> [] \<and>
   snd (frame_step \<lparr>conf_threshold = 0, smooth_frames = 10\<rparr>
      [[\<lparr>x_min = 1/10, y_min = 1/5, x_max = 1/2, y_max = 3/5, conf = 0, class_id = 0\<rparr>]]
      [[\<lparr>x_min = 1/5, y_min = 1/5, x_max = 3/5, y_max = 4/5, conf = 0, class_id = 0\<rparr>]])
     = Inr NoDetection"
proof -
  let ?a = "\<lparr>conf_threshold = 0, smooth_frames = 10\<rparr>"
  let ?h = "[[\<lparr>x_min = 1/10, y_min = 1/5, x_max = 1/2, y_max = 3/5, conf = 0, class_id = 0\<rparr>]]"
  let ?d = "[[\<lparr>x_min = 1/5, y_min = 1/5, x_max = 3/5, y_max = 4/5, conf = 0, class_id = 0\<rparr>]]"
  have f: "filtered_set ?a ?d \<noteq> []"
    by (simp add: filtered_set_def confidence_filter_def float32_values)
  have h: "fst (frame_step ?a ?h ?d)
     = [[\<lparr>x_min = 1/10, y_min = 1/5, x_max = 1/2, y_max = 3/5, conf = 0, class_id = 0\<rparr>],
        [\<lparr>x_min = 1/5, y_min = 1/5, x_max = 3/5, y_max = 4/5, conf = 0, class_id = 0\<rparr>]]"
    by (simp add: fst_frame_step filtered_set_def confidence_filter_def float32_values bounded_append_eq)
  have z: "\<forall>r\<in>set (representatives (fst (frame_step ?a ?h ?d))). conf r = 0"
    unfolding h by (simp add: representatives_def best_of_def)
  have w: "1 < smooth_frames ?a" by simp
  have l: "2 \<le> length (fst (frame_step ?a ?h ?d))" unfolding h by simp
  from zero_confidences_give_no_detection [OF z f w l] h z f show ?thesis
    by (simp add: list_all_iff)
qed

text \<open>
  Claim C7. For a detection whose confidence is a float32 number: if the confidence equals
  the threshold, the detection is kept by the confidence filter and drawn by the
  renderer; and if the filter discards it, or the renderer skips it, its confidence is
  strictly below the threshold. (The tests compare with the threshold converted to
  float32, so a confidence just below a threshold that is not a float32 number can be
  kept as well; what is discarded is always strictly below.)
\<close>

theorem threshold_is_inclusive:
  assumes "is_float32 (conf d)"
  shows "(conf d = thr \<longrightarrow> d \<in> set ds \<longrightarrow>
            d \<in> set (confidence_filter thr ds) \<and>
            length (draw_detections frame_h frame_w [d] thr) = 1 \<and>
            conf d \<in> set (map label_conf (draw_detections frame_h frame_w ds thr))) \<and>
         (d \<in> set ds \<longrightarrow> d \<notin> set (confidence_filter thr ds) \<longrightarrow> conf d < thr) \<and>
         (draw_detections frame_h frame_w [d] thr = [] \<longrightarrow> conf d < thr)"
proof (intro conjI impI)
  assume eq: "conf d = thr" and mem: "d \<in> set ds"
  from assms have pass: "np_ge (Fin (conf d)) (to_float32 thr)"
    unfolding eq [symmetric] by (rule float32_above_threshold) simp
  with mem show kept: "d \<in> set (confidence_filter thr ds)"
    by (simp add: confidence_filter_def)
  from pass show "length (draw_detections frame_h frame_w [d] thr) = 1"
    by (simp add: np_lt_iff_not_ge)
  from kept show "conf d \<in> set (map label_conf (draw_detections frame_h frame_w ds thr))"
    unfolding draw_detections_labels by simp
next
  assume "d \<in> set ds" and "d \<notin> set (confidence_filter thr ds)"
  then have "\<not> np_ge (Fin (conf d)) (to_float32 thr)"
    by (simp add: confidence_filter_def)
  with float32_above_threshold [OF assms, of thr] show "conf d < thr"
    by (cases "thr \<le> conf d") simp_all
next
  assume "draw_detections frame_h frame_w [d] thr = []"
  then have "\<not> np_ge (Fin (conf d)) (to_float32 thr)"
    by (simp add: np_lt_iff_not_ge split: if_splits)
  with float32_above_threshold [OF assms, of thr] show "conf d < thr"
    by (cases "thr \<le> conf d") simp_all
qed

theorem threshold_is_inclusive_witness:
  "is_float32 (7/8) \<and> is_float32 (3/4) \<and>
   confidence_filter (7/8)
     [\<lparr>x_min = 1/8, y_min = 1/4, x_max = 1/2, y_max = 3/4, conf = 7/8, class_id = 0\<rparr>,
      \<lparr>x_min = 1/8, y_min = 1/4, x_max = 1/2, y_max = 3/4, conf = 3/4, class_id = 0\<rparr>]
     = [\<lparr>x_min = 1/8, y_min = 1/4, x_max = 1/2, y_max = 3/4, conf = 7/8, class_id = 0\<rparr>] \<and>
   draw_detections 480 640
     [\<lparr>x_min = 1/8, y_min = 1/4, x_max = 1/2, y_max = 3/4, conf = 7/8, class_id = 0\<rparr>,
      \<lparr>x_min = 1/8, y_min = 1/4, x_max = 1/2, y_max = 3/4, conf = 3/4, class_id = 0\<rparr>] (7/8)
     = [\<lparr>x1 = 80, y1 = 120, x2 = 320, y2 = 360, label_conf = 7/8\<rparr>] \<and>
   draw_detections 480 640
     [\<lparr>x_min = 1/8, y_min = 1/4, x_max = 1/2, y_max = 3/4, conf = 3/4, class_id = 0\<rparr>] (7/8) = [] \<and>
   (3/4 :: real) < 7/8 \<and>
   confidence_filter (7/10)
     [\<lparr>x_min = 1/8, y_min = 1/4, x_max = 1/2, y_max = 3/4, conf = 11744051/16777216, class_id = 0\<rparr>]
     = [\<lparr>x_min = 1/8, y_min = 1/4, x_max = 1/2, y_max = 3/4, conf = 11744051/16777216, class_id = 0\<rparr>] \<and>
   (11744051/16777216 :: real) < 7/10"
proof -
  let ?d = "\<lparr>x_min = 1/8, y_min = 1/4, x_max = 1/2, y_max = 3/4, conf = 7/8, class_id = 0\<rparr>"
  let ?e = "\<lparr>x_min = 1/8, y_min = 1/4, x_max = 1/2, y_max = 3/4, conf = 3/4, class_id = 0\<rparr>"
  have d: "is_float32 (conf ?d)" and e: "is_float32 (conf ?e)"
    by (simp_all add: is_float32_def float32_values)
  have "conf ?e < (7/8 :: real)"
    using threshold_is_inclusive [OF e, where thr = "7/8" and ds = "[?d, ?e]"
        and frame_h = 480 and frame_w = 640]
    by (simp add: confidence_filter_def float32_values)
  with threshold_is_inclusive [OF d, where thr = "7/8" and ds = "[?d, ?e]"
      and frame_h = 480 and frame_w = 640] d e show ?thesis
    by (simp add: confidence_filter_def float32_values clamp_px_def py_int_def)
qed

text \<open>
  Claim C8. On an open capture that delivers \<open>N\<close> frames and then reports the end of
  the stream, the generator yields one multipart chunk for every frame whose JPEG
  encoding succeeded, in order, so \<open>N\<close> minus the number of failed encodings in all,
  and then ends without an exception.
\<close>

theorem generator_yields_one_chunk_per_encoded_frame:
  "generate_frames a (Some \<lparr>is_opened = True, pending = fs\<rparr>) hist =
     (history_after a hist (map decoded fs),
      map (\<lambda>f. multipart_chunk (the (jpeg f))) (filter (\<lambda>f. jpeg f \<noteq> None) fs),
      None)
   \<and> length (fst (snd (generate_frames a (Some \<lparr>is_opened = True, pending = fs\<rparr>) hist)))
        = length fs - length (filter (\<lambda>f. jpeg f = None) fs)"
proof -
  have gen: "generate_frames a (Some \<lparr>is_opened = True, pending = fs\<rparr>) hist =
     (history_after a hist (map decoded fs),
      map (\<lambda>f. multipart_chunk (the (jpeg f))) (filter (\<lambda>f. jpeg f \<noteq> None) fs),
      None)"
    by (simp add: generate_frames_def generate_loop_result)
  have count: "length (filter (\<lambda>f. jpeg f \<noteq> None) fs)
      = length fs - length (filter (\<lambda>f. jpeg f = None) fs)"
    using sum_length_filter_compl [of "\<lambda>f. jpeg f = None" fs] by simp
  show ?thesis
    unfolding gen using count by simp
qed

theorem generator_yields_one_chunk_per_encoded_frame_witness:
  "generate_frames \<lparr>conf_threshold = 2/5, smooth_frames = 10\<rparr>
     (Some \<lparr>is_opened = True, pending =
        [\<lparr>decoded = [], jpeg = Some ''A''\<rparr>,
         \<lparr>decoded = [[]], jpeg = None\<rparr>,
         \<lparr>decoded = [[\<lparr>x_min = 1/10, y_min = 1/5, x_max = 1/2, y_max = 3/5, conf = 9/10, class_id = 0\<rparr>]],
           jpeg = Some ''B''\<rparr>]\<rparr>) []
   = ([[\<lparr>x_min = 1/10, y_min = 1/5, x_max = 1/2, y_max = 3/5, conf = 9/10, class_id = 0\<rparr>]],
      [multipart_chunk ''A'', multipart_chunk ''B''], None)"
  using generator_yields_one_chunk_per_encoded_frame [of "\<lparr>conf_threshold = 2/5, smooth_frames = 10\<rparr>"
     "[\<lparr>decoded = [], jpeg = Some ''A''\<rparr>,
         \<lparr>decoded = [[]], jpeg = None\<rparr>,
         \<lparr>decoded = [[\<lparr>x_min = 1/10, y_min = 1/5, x_max = 1/2, y_max = 3/5, conf = 9/10, class_id = 0\<rparr>]],
           jpeg = Some ''B''\<rparr>]" "[]"]
  by (simp add: fst_frame_step filtered_set_def confidence_filter_def float32_values bounded_append_eq
      evict_oldest_def)

text \<open>
  Claim C9. For a frame of positive width and height and any detections, whatever their
  normalised coordinates, the corners of every box outline drawn lie within
  \<open>0 .. frame_w - 1\<close> horizontally and \<open>0 .. frame_h - 1\<close> vertically.
\<close>

theorem drawn_box_within_frame:
  assumes "0 < frame_w" and "0 < frame_h"
    and "b \<in> set (draw_detections frame_h frame_w dets thr)"
  shows "0 \<le> x1 b \<and> x1 b \<le> frame_w - 1 \<and> 0 \<le> x2 b \<and> x2 b \<le> frame_w - 1 \<and>
         0 \<le> y1 b \<and> y1 b \<le> frame_h - 1 \<and> 0 \<le> y2 b \<and> y2 b \<le> frame_h - 1"
  using assms(3)
proof (induction dets)
  case Nil
  then show ?case by simp
next
  case (Cons d ds)
  show ?case
  proof (cases "np_lt (Fin (conf d)) (to_float32 thr)")
    case True
    with Cons show ?thesis by simp
  next
    case False
    with Cons.prems consider
      "b = \<lparr>x1 = clamp_px frame_w (py_int (x_min d * of_int frame_w)),
            y1 = clamp_px frame_h (py_int (y_min d * of_int frame_h)),
            x2 = clamp_px frame_w (py_int (x_max d * of_int frame_w)),
            y2 = clamp_px frame_h (py_int (y_max d * of_int frame_h)),
            label_conf = conf d\<rparr>"
      | "b \<in> set (draw_detections frame_h frame_w ds thr)"
      by auto
    then show ?thesis
    proof cases
      case 1
      then show ?thesis
        using clamp_px_range [OF assms(1)] clamp_px_range [OF assms(2)] by simp
    next
      case 2
      then show ?thesis by (rule Cons.IH)
    qed
  qed
qed

theorem drawn_box_within_frame_witness:
  "(0::int) < 640 \<and> (0::int) < 480 \<and>
   draw_detections 480 640
     [\<lparr>x_min = - 1/5, y_min = 1/10, x_max = 6/5, y_max = 3/2, conf = 9/10, class_id = 0\<rparr>] (2/5)
     = [\<lparr>x1 = 0, y1 = 48, x2 = 639, y2 = 479, label_conf = 9/10\<rparr>] \<and>
   x2 \<lparr>x1 = 0, y1 = 48, x2 = 639, y2 = 479, label_conf = 9/10::real\<rparr> \<le> 640 - 1 \<and>
   y2 \<lparr>x1 = 0, y1 = 48, x2 = 639, y2 = 479, label_conf = 9/10::real\<rparr> \<le> 480 - 1"
proof -
  have d: "draw_detections 480 640
     [\<lparr>x_min = - 1/5, y_min = 1/10, x_max = 6/5, y_max = 3/2, conf = 9/10, class_id = 0\<rparr>] (2/5)
     = [\<lparr>x1 = 0, y1 = 48, x2 = 639, y2 = 479, label_conf = 9/10\<rparr>]"
    by (simp add: clamp_px_def py_int_def float32_values)
  have m: "\<lparr>x1 = 0, y1 = 48, x2 = 639, y2 = 479, label_conf = 9/10\<rparr> \<in> set (draw_detections 480 640
     [\<lparr>x_min = - 1/5, y_min = 1/10, x_max = 6/5, y_max = 3/2, conf = 9/10, class_id = 0\<rparr>] (2/5))"
    unfolding d by simp
  have w: "(0::int) < 640" and h: "(0::int) < 480" by simp_all
  from drawn_box_within_frame [OF w h m] d show ?thesis by simp
qed

text \<open>
  Claim C10, as stated, bounds the stored confidences by the threshold itself.
  Counterexample: the filter compares with the threshold converted to float32. With the
  threshold 0.7, which converts to 11744051/16777216, a detection of exactly that
  confidence, below 0.7, is appended to the history; and with the positive threshold
  \<open>2\<^sup>-\<^sup>1\<^sup>5\<^sup>1\<close>, which converts to 0, two frames with a detection of confidence 0 leave a
  history whose representatives have the weight sum 0.
\<close>

theorem stored_confidence_below_threshold_counterexample:
  "1 < smooth_frames \<lparr>conf_threshold = 7/10, smooth_frames = 10\<rparr> \<and>
   history_after \<lparr>conf_threshold = 7/10, smooth_frames = 10\<rparr> []
      [[[\<lparr>x_min = 1/8, y_min = 1/4, x_max = 1/2, y_max = 3/4, conf = 11744051/16777216, class_id = 0\<rparr>]]]
     = [[\<lparr>x_min = 1/8, y_min = 1/4, x_max = 1/2, y_max = 3/4, conf = 11744051/16777216, class_id = 0\<rparr>]] \<and>
   conf \<lparr>x_min = 1/8, y_min = 1/4, x_max = 1/2, y_max = 3/4, conf = 11744051/16777216, class_id = 0\<rparr>
     < conf_threshold \<lparr>conf_threshold = 7/10, smooth_frames = 10\<rparr> \<and>
   0 < conf_threshold \<lparr>conf_threshold = 1 / 2 ^ 151, smooth_frames = 10\<rparr> \<and>
   history_after \<lparr>conf_threshold = 1 / 2 ^ 151, smooth_frames = 10\<rparr> []
      [[[\<lparr>x_min = 1/8, y_min = 1/4, x_max = 1/2, y_max = 3/4, conf = 0, class_id = 0\<rparr>]],
       [[\<lparr>x_min = 1/8, y_min = 1/4, x_max = 1/2, y_max = 3/4, conf = 0, class_id = 0\<rparr>]]]
     = [[\<lparr>x_min = 1/8, y_min = 1/4, x_max = 1/2, y_max = 3/4, conf = 0, class_id = 0\<rparr>],
        [\<lparr>x_min = 1/8, y_min = 1/4, x_max = 1/2, y_max = 3/4, conf = 0, class_id = 0\<rparr>]] \<and>
   (\<Sum>r\<leftarrow>representatives
        [[\<lparr>x_min = 1/8, y_min = 1/4, x_max = 1/2, y_max = 3/4, conf = 0, class_id = 0\<rparr>],
         [\<lparr>x_min = 1/8, y_min = 1/4, x_max = 1/2, y_max = 3/4, conf = 0, class_id = 0\<rparr>]]. conf r) = 0"
  by (simp add: fst_frame_step filtered_set_def confidence_filter_def float32_values
      float32_of_tiny [simplified] bounded_append_eq representatives_def best_of_def)

text \<open>
  Claim C10, amended. The invariant "every history entry is a non-empty detection set all
  of whose confidences pass the filter's test, that is, are at least the threshold
  converted to float32" is kept by every frame and every sequence of frames (it holds
  of the initial empty history); so when the converted threshold is positive (confidence
  0 does not pass the test), the weight sum of the representatives of a non-empty
  history is strictly positive.
\<close>

theorem history_entries_pass_threshold:
  assumes "hist_inv (conf_threshold a) hist"
  shows "hist_inv (conf_threshold a) (fst (frame_step a hist detections)) \<and>
         hist_inv (conf_threshold a) (history_after a hist frames) \<and>
         (\<not> np_ge (Fin 0) (to_float32 (conf_threshold a)) \<longrightarrow>
            history_after a hist frames \<noteq> [] \<longrightarrow>
            0 < (\<Sum>r\<leftarrow>representatives (history_after a hist frames). conf r))"
proof (intro conjI impI)
  show "hist_inv (conf_threshold a) (fst (frame_step a hist detections))"
    using assms by (rule hist_inv_step)
  show inv: "hist_inv (conf_threshold a) (history_after a hist frames)"
    using assms by (rule hist_inv_after)
  assume "\<not> np_ge (Fin 0) (to_float32 (conf_threshold a))" "history_after a hist frames \<noteq> []"
  with weight_sum_positive [OF inv]
  show "0 < (\<Sum>r\<leftarrow>representatives (history_after a hist frames). conf r)"
    by (simp add: weight_sum_def)
qed

theorem history_entries_pass_threshold_witness:
  "hist_inv (conf_threshold \<lparr>conf_threshold = 2/5, smooth_frames = 10\<rparr>) [] \<and>
   \<not> np_ge (Fin 0) (to_float32 (conf_threshold \<lparr>conf_threshold = 2/5, smooth_frames = 10\<rparr>)) \<and>
   history_after \<lparr>conf_threshold = 2/5, smooth_frames = 10\<rparr> []
     [[[\<lparr>x_min = 1/8, y_min = 1/4, x_max = 1/2, y_max = 3/4, conf = 7/8, class_id = 0\<rparr>,
        \<lparr>x_min = 1/8, y_min = 1/4, x_max = 1/2, y_max = 3/4, conf = 1/4, class_id = 0\<rparr>]],
      [[\<lparr>x_min = 1/8, y_min = 1/4, x_max = 1/2, y_max = 3/4, conf = 1/2, class_id = 0\<rparr>]]]
     = [[\<lparr>x_min = 1/8, y_min = 1/4, x_max = 1/2, y_max = 3/4, conf = 7/8, class_id = 0\<rparr>],
        [\<lparr>x_min = 1/8, y_min = 1/4, x_max = 1/2, y_max = 3/4, conf = 1/2, class_id = 0\<rparr>]] \<and>
   hist_inv (2/5)
       [[\<lparr>x_min = 1/8, y_min = 1/4, x_max = 1/2, y_max = 3/4, conf = 7/8, class_id = 0\<rparr>],
        [\<lparr>x_min = 1/8, y_min = 1/4, x_max = 1/2, y_max = 3/4, conf = 1/2, class_id = 0\<rparr>]] \<and>
   0 < (\<Sum>r\<leftarrow>representatives
       [[\<lparr>x_min = 1/8, y_min = 1/4, x_max = 1/2, y_max = 3/4, conf = 7/8, class_id = 0\<rparr>],
        [\<lparr>x_min = 1/8, y_min = 1/4, x_max = 1/2, y_max = 3/4, conf = 1/2, class_id = 0\<rparr>]]. conf r)"
proof -
  let ?a = "\<lparr>conf_threshold = 2/5, smooth_frames = 10\<rparr>"
  let ?fs = "[[[\<lparr>x_min = 1/8, y_min = 1/4, x_max = 1/2, y_max = 3/4, conf = 7/8, class_id = 0\<rparr>,
        \<lparr>x_min = 1/8, y_min = 1/4, x_max = 1/2, y_max = 3/4, conf = 1/4, class_id = 0\<rparr>]],
      [[\<lparr>x_min = 1/8, y_min = 1/4, x_max = 1/2, y_max = 3/4, conf = 1/2, class_id = 0\<rparr>]]]"
  have i: "hist_inv (conf_threshold ?a) []" by (simp add: hist_inv_def)
  have p: "\<not> np_ge (Fin 0) (to_float32 (conf_threshold ?a))"
    by (simp add: float32_values)
  have h: "history_after ?a [] ?fs
     = [[\<lparr>x_min = 1/8, y_min = 1/4, x_max = 1/2, y_max = 3/4, conf = 7/8, class_id = 0\<rparr>],
        [\<lparr>x_min = 1/8, y_min = 1/4, x_max = 1/2, y_max = 3/4, conf = 1/2, class_id = 0\<rparr>]]"
    by (simp add: fst_frame_step filtered_set_def confidence_filter_def float32_values
        bounded_append_eq)
  from history_entries_pass_threshold [OF i, of "[]" ?fs] i p h show ?thesis by simp
qed

end
